theory Spec2Isabelle
  imports Complex_Main "HOL-Library.Multiset" "HOL-Library.Product_Lexorder"
    "HOL-Library.List_Lexorder" "HOL-Library.Char_ord"
begin

text \<open>
  The components of the RaceOracle dashboard, a React front end: \<^verbatim>\<open>AppLayout\<close> (the
  mock agents and their animation tick), \<^verbatim>\<open>RaceVisualizer\<close> (the zoom control),
  \<^verbatim>\<open>Leaderboard\<close> (sorting and rendering of the standings),
  \<^verbatim>\<open>ScenarioConfigModal\<close> (the configuration form) and \<^verbatim>\<open>App\<close> (the client that
  starts and polls the simulation service).
\<close>

section \<open>JavaScript numbers\<close>

text \<open>
  The dashboard computes with JavaScript numbers, which are IEEE doubles. The animation
  tick and the leaderboard are modelled over the reals: their properties are about
  clamping, remainders and comparisons, which do not depend on rounding. The zoom
  control is modelled with the rounding of doubles, because its property is about the
  exact size of a step. A number that is missing (the property is \<^verbatim>\<open>undefined\<close>, or
  arithmetic on it gave \<^verbatim>\<open>NaN\<close>) is \<open>None\<close>.

  The remainder operator \<^verbatim>\<open>%\<close> truncates the quotient towards zero, so its result
  has the sign of the dividend.
\<close>

definition js_trunc :: "real \<Rightarrow> int" where
  "js_trunc r = (if 0 \<le> r then \<lfloor>r\<rfloor> else - \<lfloor>- r\<rfloor>)"

definition js_rem :: "real \<Rightarrow> real \<Rightarrow> real" where
  "js_rem a b = a - b * of_int (js_trunc (a / b))"

text \<open>
  A double has a significand of 53 bits: in the binade from \<open>2 powi e\<close> to
  \<open>2 powi (e + 1)\<close> the doubles are the multiples of \<open>2 powi (e - 52)\<close>. The result of
  an operation is the exact result rounded to the nearest double, to the one with an
  even significand when two are equally near. Overflow and subnormal numbers are left
  out: the zoom factor, the literal 0.2 and the sums have magnitudes between 0.125 and 4.
\<close>

definition round_half_even :: "real \<Rightarrow> int" where
  "round_half_even r =
     (let f = \<lfloor>r\<rfloor> in
      if r - of_int f < 1 / 2 then f
      else if 1 / 2 < r - of_int f then f + 1
      else if even f then f else f + 1)"

definition binade :: "real \<Rightarrow> int" where
  "binade x = \<lfloor>log 2 \<bar>x\<bar>\<rfloor>"

definition round_double :: "real \<Rightarrow> real" where
  "round_double x =
     (if x = 0 then 0
      else 2 powi (binade x - 52) * of_int (round_half_even (x / 2 powi (binade x - 52))))"

definition double_add :: "real \<Rightarrow> real \<Rightarrow> real" where
  "double_add x y = round_double (x + y)"

text \<open>The value of the literal \<^verbatim>\<open>0.2\<close>: the double nearest to two tenths.\<close>

definition two_tenths :: real where
  "two_tenths = round_double (2 / 10)"

text \<open>
  A property of an object that a component calls a method on can hold any primitive
  value: it is \<^verbatim>\<open>undefined\<close> when absent, and the JSON of the service can give
  \<^verbatim>\<open>null\<close>, a boolean, a number or a string.
\<close>

datatype jsval = VUndefined | VNull | VBool bool | VNum real | VNaN | VStr string

section \<open>Agents\<close>

text \<open>
  An agent object as the components read it. \<^verbatim>\<open>AppLayout\<close> builds agents with every
  property; the polling client builds them with \<^verbatim>\<open>id, x, y, color, heading\<close> only,
  so the other properties are optional. The leaderboard calls methods on the lap time,
  the delta and the status, which are therefore kept as values of any kind.
\<close>

record agent =
  agent_id :: string
  color :: string
  agent_x :: real
  agent_y :: real
  heading :: real
  name :: "string option"
  speed :: "real option"
  lap :: "real option"
  lapTime :: jsval
  delta :: jsval
  status :: jsval

text \<open>The initial state of \<^verbatim>\<open>AppLayout\<close>.\<close>

definition initialAgents :: "agent list" where
  "initialAgents =
    [\<lparr>agent_id = ''A1'', color = ''#00FFD1'', agent_x = 150, agent_y = 150, heading = 45,
      name = Some ''AlphaBot'', speed = Some 180, lap = Some 2, lapTime = VNum (6534 / 100),
      delta = VNum 0, status = VStr ''Active''\<rparr>,
     \<lparr>agent_id = ''A2'', color = ''#FFB400'', agent_x = 250, agent_y = 200, heading = 90,
      name = Some ''BetaAgent'', speed = Some 175, lap = Some 2, lapTime = VNum (6612 / 100),
      delta = VNum (78 / 100), status = VStr ''Active''\<rparr>,
     \<lparr>agent_id = ''A3'', color = ''#FF6B9D'', agent_x = 180, agent_y = 280, heading = 225,
      name = Some ''GammaBot'', speed = Some 168, lap = Some 1, lapTime = VNum (6489 / 100),
      delta = VNum (- (45 / 100)), status = VStr ''Warning''\<rparr>]"

section \<open>The animation tick of AppLayout\<close>

text \<open>
  Every second the interval callback maps each agent to a copy with new
  \<^verbatim>\<open>x, y, heading, speed\<close>, each computed from one call of \<^verbatim>\<open>Math.random()\<close>.
  The values those calls return are an input of the model: \<open>rnd k\<close> is the value of the
  \<open>k\<close>-th call. \<^verbatim>\<open>Math.max\<close> and \<^verbatim>\<open>Math.min\<close> return \<^verbatim>\<open>NaN\<close> on a missing speed.
\<close>

definition animate_agent :: "real \<Rightarrow> real \<Rightarrow> real \<Rightarrow> real \<Rightarrow> agent \<Rightarrow> agent" where
  "animate_agent r1 r2 r3 r4 a =
     a\<lparr>agent_x := js_rem (agent_x a + r1 * 10 - 5) 500,
       agent_y := js_rem (agent_y a + r2 * 10 - 5) 400,
       heading := js_rem (heading a + r3 * 5 - 5 / 2) 360,
       speed := (case speed a of
                   None \<Rightarrow> None
                 | Some s \<Rightarrow> Some (max 160 (min 200 (s + r4 * 4 - 2))))\<rparr>"

fun animate_agents :: "(nat \<Rightarrow> real) \<Rightarrow> nat \<Rightarrow> agent list \<Rightarrow> agent list" where
  "animate_agents rnd k [] = []"
| "animate_agents rnd k (a # as) =
     animate_agent (rnd k) (rnd (k + 1)) (rnd (k + 2)) (rnd (k + 3)) a
       # animate_agents rnd (k + 4) as"

fun animate_ticks :: "nat \<Rightarrow> (nat \<Rightarrow> real) \<Rightarrow> nat \<Rightarrow> agent list \<Rightarrow> agent list" where
  "animate_ticks 0 rnd k agents = agents"
| "animate_ticks (Suc n) rnd k agents =
     animate_ticks n rnd (k + 4 * length agents) (animate_agents rnd k agents)"

text \<open>Two sequences of \<^verbatim>\<open>Math.random()\<close> values, and one that follows the first for
  twelve calls and the second afterwards.\<close>

definition draws_low :: "nat \<Rightarrow> real" where
  "draws_low k = 1 / 10"

definition draws_mid :: "nat \<Rightarrow> real" where
  "draws_mid k = 1 / 2"

definition draws_low_then_mid :: "nat \<Rightarrow> real" where
  "draws_low_then_mid k = (if k < 12 then 1 / 10 else 1 / 2)"

definition speed_in_range :: "agent \<Rightarrow> bool" where
  "speed_in_range a = (case speed a of None \<Rightarrow> False | Some s \<Rightarrow> 160 \<le> s \<and> s \<le> 200)"

definition heading_wrapped :: "agent \<Rightarrow> bool" where
  "heading_wrapped a = (0 \<le> heading a \<and> heading a < 360)"

section \<open>The zoom control of RaceVisualizer\<close>

text \<open>
  \<^verbatim>\<open>handleZoom\<close> is the state updater of the zoom factor; the two buttons call it with
  \<^verbatim>\<open>'in'\<close> and \<^verbatim>\<open>'out'\<close>, and every direction other than \<^verbatim>\<open>'in'\<close> zooms out.
  The sum is a sum of doubles; the bounds 0.5 and 3 and the initial factor 1 are doubles
  as they stand.
\<close>

definition handleZoom :: "string \<Rightarrow> real \<Rightarrow> real" where
  "handleZoom direction prev =
     max (1 / 2)
       (min 3 (double_add prev (if direction = ''in'' then two_tenths else - two_tenths)))"

definition zoom_after :: "string list \<Rightarrow> real" where
  "zoom_after clicks = foldl (\<lambda>prev direction. handleZoom direction prev) 1 clicks"

section \<open>The Leaderboard\<close>

text \<open>
  The comparator is \<^verbatim>\<open>(a, b) => a.lap - b.lap || a.lapTime - b.lapTime\<close>. A subtraction
  reads its operands as numbers and is \<^verbatim>\<open>NaN\<close> when one of them is; \<^verbatim>\<open>p || q\<close> is
  \<open>p\<close> when \<open>p\<close> is truthy (a number other than 0 and \<^verbatim>\<open>NaN\<close>) and \<open>q\<close> otherwise.
  Read as a number, \<^verbatim>\<open>undefined\<close> is \<^verbatim>\<open>NaN\<close>, \<^verbatim>\<open>null\<close> is 0 and a boolean is 0
  or 1. The reading of a string is not modelled: it is taken as \<^verbatim>\<open>NaN\<close>. That bears
  on the order of a list that holds a string as a lap time only, and such a list does
  not render, in whatever order it stands (\<open>render_rows_raises_iff\<close> below).
\<close>

fun to_number :: "jsval \<Rightarrow> real option" where
  "to_number VUndefined = None"
| "to_number VNull = Some 0"
| "to_number (VBool b) = Some (if b then 1 else 0)"
| "to_number (VNum r) = Some r"
| "to_number VNaN = None"
| "to_number (VStr s) = None"

definition js_sub :: "real option \<Rightarrow> real option \<Rightarrow> real option" where
  "js_sub p q =
     (case p of None \<Rightarrow> None | Some u \<Rightarrow> (case q of None \<Rightarrow> None | Some v \<Rightarrow> Some (u - v)))"

definition js_or :: "real option \<Rightarrow> real option \<Rightarrow> real option" where
  "js_or p q = (case p of None \<Rightarrow> q | Some v \<Rightarrow> if v \<noteq> 0 then p else q)"

definition compareFn :: "agent \<Rightarrow> agent \<Rightarrow> real option" where
  "compareFn a b =
     js_or (js_sub (lap a) (lap b)) (js_sub (to_number (lapTime a)) (to_number (lapTime b)))"

text \<open>
  \<^verbatim>\<open>Array.prototype.sort\<close> is a built-in. It places \<open>b\<close> before \<open>a\<close> when the comparator
  is positive on \<open>(a, b)\<close>, reads \<^verbatim>\<open>NaN\<close> as 0, and is stable: elements that compare 0
  keep their order. It is modelled by insertion from the right, which is the one stable
  result when the comparator is consistent.
\<close>

definition sorts_after :: "('a \<Rightarrow> 'a \<Rightarrow> real option) \<Rightarrow> 'a \<Rightarrow> 'a \<Rightarrow> bool" where
  "sorts_after cmp a b = (case cmp a b of None \<Rightarrow> False | Some v \<Rightarrow> 0 < v)"

fun js_insort :: "('a \<Rightarrow> 'a \<Rightarrow> real option) \<Rightarrow> 'a \<Rightarrow> 'a list \<Rightarrow> 'a list" where
  "js_insort cmp a [] = [a]"
| "js_insort cmp a (b # bs) =
     (if sorts_after cmp a b then b # js_insort cmp a bs else a # b # bs)"

definition js_sort :: "('a \<Rightarrow> 'a \<Rightarrow> real option) \<Rightarrow> 'a list \<Rightarrow> 'a list" where
  "js_sort cmp xs = foldr (js_insort cmp) xs []"

definition sortedAgents :: "agent list \<Rightarrow> agent list" where
  "sortedAgents ags = js_sort compareFn ags"

text \<open>
  The table body. \<^verbatim>\<open>v.toFixed(2)\<close> formats a number and gives the text \<^verbatim>\<open>NaN\<close> for
  \<^verbatim>\<open>NaN\<close>; on \<^verbatim>\<open>undefined\<close> and \<^verbatim>\<open>null\<close> reading the method raises a
  \<^verbatim>\<open>TypeError\<close>, and on a boolean or a string there is no such method, so the call
  raises a \<^verbatim>\<open>TypeError\<close> too. \<^verbatim>\<open>v.toLowerCase()\<close> succeeds on a string only. The
  delta is rendered whenever it is not \<^verbatim>\<open>undefined\<close>. A missing lap, name or speed
  renders as an empty or literal cell. The cells keep the number that \<^verbatim>\<open>toFixed(2)\<close>
  formats, \<open>None\<close> for \<^verbatim>\<open>NaN\<close>.
\<close>

datatype js_error = TypeError

definition toLowerCase :: "string \<Rightarrow> string" where
  "toLowerCase s =
     map (\<lambda>c. if CHR ''A'' \<le> c \<and> c \<le> CHR ''Z'' then char_of (of_char c + (32 :: nat)) else c) s"

definition toFixed2 :: "jsval \<Rightarrow> js_error + real option" where
  "toFixed2 v = (case v of VNum r \<Rightarrow> Inr (Some r) | VNaN \<Rightarrow> Inr None | _ \<Rightarrow> Inl TypeError)"

text \<open>\<^verbatim>\<open>v > 0\<close>, for the values on which \<^verbatim>\<open>toFixed\<close> succeeds.\<close>

definition is_positive :: "real option \<Rightarrow> bool" where
  "is_positive d = (case d of None \<Rightarrow> False | Some r \<Rightarrow> 0 < r)"

record delta_cell =
  delta_class :: string
  delta_sign :: string
  delta_fixed2 :: "real option"

record row =
  row_key :: string
  row_class :: string
  position :: nat
  driver_color :: string
  driver_name :: "string option"
  lap_cell :: "real option"
  lap_time_fixed2 :: "real option"
  lap_delta :: "delta_cell option"
  speed_cell :: "real option"
  status_class :: string
  status_text :: string

definition render_delta :: "jsval \<Rightarrow> js_error + delta_cell option" where
  "render_delta v =
     (if v = VUndefined then Inr None
      else
        (case toFixed2 v of
           Inl e \<Rightarrow> Inl e
         | Inr d \<Rightarrow>
             Inr (Some \<lparr>delta_class = (if is_positive d then ''slower'' else ''faster''),
                        delta_sign = (if is_positive d then ''+'' else []),
                        delta_fixed2 = d\<rparr>)))"

definition render_row :: "agent \<Rightarrow> nat \<Rightarrow> js_error + row" where
  "render_row a index =
     (case toFixed2 (lapTime a) of
        Inl e \<Rightarrow> Inl e
      | Inr t \<Rightarrow>
          (case render_delta (delta a) of
             Inl e \<Rightarrow> Inl e
           | Inr dc \<Rightarrow>
               (case status a of
                  VStr st \<Rightarrow>
                    Inr \<lparr>row_key = agent_id a,
                         row_class = (if index mod 2 = 0 then ''even'' else ''odd''),
                         position = index + 1,
                         driver_color = color a,
                         driver_name = name a,
                         lap_cell = lap a,
                         lap_time_fixed2 = t,
                         lap_delta = dc,
                         speed_cell = speed a,
                         status_class = toLowerCase st,
                         status_text = st\<rparr>
                | _ \<Rightarrow> Inl TypeError)))"

fun render_rows :: "nat \<Rightarrow> agent list \<Rightarrow> js_error + row list" where
  "render_rows index [] = Inr []"
| "render_rows index (a # as) =
     (case render_row a index of
        Inl e \<Rightarrow> Inl e
      | Inr r \<Rightarrow>
          (case render_rows (index + 1) as of
             Inl e \<Rightarrow> Inl e
           | Inr rs \<Rightarrow> Inr (r # rs)))"

definition Leaderboard :: "agent list \<Rightarrow> js_error + row list" where
  "Leaderboard ags = render_rows 0 (sortedAgents ags)"

text \<open>The kinds of value, and the conditions on an agent that the properties below use.\<close>

definition is_num :: "jsval \<Rightarrow> bool" where
  "is_num v = (case v of VNum r \<Rightarrow> True | _ \<Rightarrow> False)"

definition is_str :: "jsval \<Rightarrow> bool" where
  "is_str v = (case v of VStr s \<Rightarrow> True | _ \<Rightarrow> False)"

definition has_lap_and_lapTime :: "agent \<Rightarrow> bool" where
  "has_lap_and_lapTime a = (lap a \<noteq> None \<and> is_num (lapTime a))"

definition has_lap_lapTime_status :: "agent \<Rightarrow> bool" where
  "has_lap_lapTime_status a = (lap a \<noteq> None \<and> is_num (lapTime a) \<and> is_str (status a))"

text \<open>
  The agents whose row renders: the lap time is a number (\<^verbatim>\<open>NaN\<close> is one), the delta
  is \<^verbatim>\<open>undefined\<close> or a number, and the status is a string.
\<close>

definition row_renders :: "agent \<Rightarrow> bool" where
  "row_renders a =
     ((is_num (lapTime a) \<or> lapTime a = VNaN) \<and>
      (delta a = VUndefined \<or> is_num (delta a) \<or> delta a = VNaN) \<and>
      is_str (status a))"

text \<open>An agent record as the polling client builds it, with five properties only.\<close>

definition polledShape :: agent where
  "polledShape =
     \<lparr>agent_id = ''A1'', color = ''#00FFD1'', agent_x = 150, agent_y = 150, heading = 45,
      name = None, speed = None, lap = None, lapTime = VUndefined, delta = VUndefined,
      status = VUndefined\<rparr>"

text \<open>
  An agent with a lap, a numeric lap time and a status whose delta is \<^verbatim>\<open>null\<close>, and an
  agent that has everything but a lap.
\<close>

definition nullDeltaAgent :: agent where
  "nullDeltaAgent =
     \<lparr>agent_id = ''A1'', color = ''#00FFD1'', agent_x = 150, agent_y = 150, heading = 45,
      name = Some ''AlphaBot'', speed = Some 180, lap = Some 2, lapTime = VNum (6534 / 100),
      delta = VNull, status = VStr ''Active''\<rparr>"

definition noLapAgent :: agent where
  "noLapAgent =
     \<lparr>agent_id = ''A1'', color = ''#00FFD1'', agent_x = 150, agent_y = 150, heading = 45,
      name = Some ''AlphaBot'', speed = Some 180, lap = None, lapTime = VNum (6534 / 100),
      delta = VNum 0, status = VStr ''Active''\<rparr>"

text \<open>
  The order of the comparator on agents with a lap and a numeric lap time, and the pair
  it compares. Both serve the proofs below.
\<close>

definition ranks_before :: "agent \<Rightarrow> agent \<Rightarrow> bool" where
  "ranks_before a b =
     (case (lap a, lapTime a, lap b, lapTime b) of
        (Some la, VNum ta, Some lb, VNum tb) \<Rightarrow> la < lb \<or> (la = lb \<and> ta \<le> tb)
      | _ \<Rightarrow> False)"

definition rank_key :: "agent \<Rightarrow> real \<times> real" where
  "rank_key a = (the (lap a), the (to_number (lapTime a)))"

text \<open>The lap time of \<open>a\<close> is not larger than that of \<open>b\<close>.\<close>

definition not_slower :: "agent \<Rightarrow> agent \<Rightarrow> bool" where
  "not_slower a b =
     (case (lapTime a, lapTime b) of (VNum ta, VNum tb) \<Rightarrow> ta \<le> tb | _ \<Rightarrow> False)"

text \<open>
  The order the specification states, as far as it can be read off an agent: \<open>a\<close> may
  stand before \<open>b\<close> only if its lap is not smaller and, when the laps are equal and both
  agents are at the same point of the track (so that their progress is equal), its id is
  not larger.
\<close>

definition spec_ranks_before :: "agent \<Rightarrow> agent \<Rightarrow> bool" where
  "spec_ranks_before a b =
     (case (lap a, lap b) of
        (Some la, Some lb) \<Rightarrow>
          lb < la \<or>
          (la = lb \<and>
           (agent_x a = agent_x b \<and> agent_y a = agent_y b \<longrightarrow> agent_id a \<le> agent_id b))
      | _ \<Rightarrow> True)"

text \<open>Two agents that differ in their id only.\<close>

definition twinA2 :: agent where
  "twinA2 =
     \<lparr>agent_id = ''A2'', color = ''#FFB400'', agent_x = 250, agent_y = 200, heading = 90,
      name = Some ''BetaAgent'', speed = Some 175, lap = Some 2, lapTime = VNum (6612 / 100),
      delta = VNum 0, status = VStr ''Active''\<rparr>"

definition twinA1 :: agent where
  "twinA1 = twinA2\<lparr>agent_id := ''A1''\<rparr>"

section \<open>The configuration modal\<close>

text \<open>
  The state of \<^verbatim>\<open>ScenarioConfigModal\<close> is the selected track and the list of agents
  to configure. \<^verbatim>\<open>handleAgentChange\<close> is called with the fields \<^verbatim>\<open>'name'\<close> and
  \<^verbatim>\<open>'param'\<close> only. The id of an added agent ends in text derived from
  \<^verbatim>\<open>Math.random()\<close>, which is an input of the model.
\<close>

record cfg_agent =
  cfg_id :: string
  cfg_name :: string
  param :: string

record modal =
  selectedTrack :: string
  modal_agents :: "cfg_agent list"

record config =
  track :: string
  config_agents :: "cfg_agent list"

datatype agent_field = Name | Param

definition initialModal :: modal where
  "initialModal =
     \<lparr>selectedTrack = ''monaco'',
      modal_agents =
        [\<lparr>cfg_id = ''a1'', cfg_name = ''AlphaBot'', param = ''aggressive''\<rparr>,
         \<lparr>cfg_id = ''a2'', cfg_name = ''BetaAgent'', param = ''balanced''\<rparr>,
         \<lparr>cfg_id = ''a3'', cfg_name = ''GammaBot'', param = ''conservative''\<rparr>]\<rparr>"

definition digit :: "nat \<Rightarrow> char" where
  "digit d = ''0123456789'' ! d"

function decimal :: "nat \<Rightarrow> string" where
  "decimal n = (if n < 10 then [digit n] else decimal (n div 10) @ [digit (n mod 10)])"
  by pat_completeness auto
termination
  by (relation "measure (\<lambda>n. n)") auto

definition handleAgentChange :: "string \<Rightarrow> agent_field \<Rightarrow> string \<Rightarrow> modal \<Rightarrow> modal" where
  "handleAgentChange i field v m =
     m\<lparr>modal_agents :=
         map (\<lambda>a. if cfg_id a = i
                   then (case field of Name \<Rightarrow> a\<lparr>cfg_name := v\<rparr> | Param \<Rightarrow> a\<lparr>param := v\<rparr>)
                   else a)
           (modal_agents m)\<rparr>"

definition handleAddAgent :: "string \<Rightarrow> modal \<Rightarrow> modal" where
  "handleAddAgent suffix m =
     m\<lparr>modal_agents :=
         modal_agents m @
           [\<lparr>cfg_id = ''a'' @ suffix,
             cfg_name = ''Agent-'' @ decimal (length (modal_agents m) + 1),
             param = ''balanced''\<rparr>]\<rparr>"

definition handleRemoveAgent :: "string \<Rightarrow> modal \<Rightarrow> modal" where
  "handleRemoveAgent i m = m\<lparr>modal_agents := filter (\<lambda>a. cfg_id a \<noteq> i) (modal_agents m)\<rparr>"

text \<open>Pressing the remove button of every row, from the first to the last.\<close>

definition remove_every_agent :: "modal \<Rightarrow> modal" where
  "remove_every_agent m = foldl (\<lambda>m' i. handleRemoveAgent i m') m (map cfg_id (modal_agents m))"

text \<open>
  \<^verbatim>\<open>AppLayout\<close> passes \<^verbatim>\<open>handleStartSimulation\<close> as \<^verbatim>\<open>onStart\<close>: it writes the
  configuration to the console and hides the modal, as \<^verbatim>\<open>onClose\<close> does. Neither
  function has a branch that rejects a configuration.
\<close>

record layout =
  showModal :: bool
  console :: "config list"

definition initialLayout :: layout where
  "initialLayout = \<lparr>showModal = True, console = []\<rparr>"

definition handleStartSimulation :: "config \<Rightarrow> layout \<Rightarrow> layout" where
  "handleStartSimulation cfg st = st\<lparr>console := console st @ [cfg], showModal := False\<rparr>"

definition onClose :: "layout \<Rightarrow> layout" where
  "onClose st = st\<lparr>showModal := False\<rparr>"

definition handleStart :: "modal \<Rightarrow> layout \<Rightarrow> layout" where
  "handleStart m st =
     onClose (handleStartSimulation \<lparr>track = selectedTrack m, config_agents = modal_agents m\<rparr> st)"

section \<open>The polling client\<close>

text \<open>
  \<^verbatim>\<open>App\<close> talks to the simulation service with \<^verbatim>\<open>fetch\<close>. The promise of \<^verbatim>\<open>fetch\<close>
  is rejected on a network failure only; a response with any HTTP status resolves it.
  A response carries its status and its body, which \<^verbatim>\<open>res.json()\<close> parses: \<open>None\<close> is
  a body that is not JSON, on which \<^verbatim>\<open>res.json()\<close> raises. An object is the list of
  its properties, looked up by name; a property that is absent is \<^verbatim>\<open>undefined\<close>,
  written \<open>None\<close>.
\<close>

datatype json =
  JNull | JBool bool | JNum real | JStr string | JArr "json list" | JObj "(string \<times> json) list"

datatype fetch_result = Rejected | Resolved nat "json option"

record polled_agent =
  polled_id :: "json option"
  polled_x :: "json option"
  polled_y :: "json option"
  polled_color :: "json option"
  polled_heading :: "json option"

record app =
  app_agents :: "polled_agent list"
  eventLog :: json
  simStatus :: string

definition initialApp :: app where
  "initialApp = \<lparr>app_agents = [], eventLog = JArr [], simStatus = ''idle''\<rparr>"

text \<open>The effect that starts the simulation when the component is mounted.\<close>

definition start :: "fetch_result \<Rightarrow> app \<Rightarrow> app" where
  "start res st =
     (case res of
        Resolved code body \<Rightarrow> st\<lparr>simStatus := ''running''\<rparr>
      | Rejected \<Rightarrow> st\<lparr>simStatus := ''error''\<rparr>)"

fun truthy :: "json option \<Rightarrow> bool" where
  "truthy None = False"
| "truthy (Some JNull) = False"
| "truthy (Some (JBool b)) = b"
| "truthy (Some (JNum n)) = (n \<noteq> 0)"
| "truthy (Some (JStr s)) = (s \<noteq> [])"
| "truthy (Some (JArr xs)) = True"
| "truthy (Some (JObj kvs)) = True"

text \<open>
  Reading a property: of \<^verbatim>\<open>null\<close> it raises, of an object it looks the name up, and of
  a boolean, a number, a string or an array it is \<^verbatim>\<open>undefined\<close> for each of the names
  the client reads (\<^verbatim>\<open>agents, event_log, id, x, y, color, heading\<close>).
\<close>

fun get_prop :: "json \<Rightarrow> string \<Rightarrow> js_error + json option" where
  "get_prop JNull p = Inl TypeError"
| "get_prop (JObj kvs) p = Inr (map_of kvs p)"
| "get_prop v p = Inr None"

definition pick :: "json \<Rightarrow> js_error + polled_agent" where
  "pick a =
     (case get_prop a ''id'' of Inl e \<Rightarrow> Inl e | Inr i \<Rightarrow>
     (case get_prop a ''x'' of Inl e \<Rightarrow> Inl e | Inr px \<Rightarrow>
     (case get_prop a ''y'' of Inl e \<Rightarrow> Inl e | Inr py \<Rightarrow>
     (case get_prop a ''color'' of Inl e \<Rightarrow> Inl e | Inr c \<Rightarrow>
     (case get_prop a ''heading'' of Inl e \<Rightarrow> Inl e | Inr h \<Rightarrow>
        Inr \<lparr>polled_id = i, polled_x = px, polled_y = py, polled_color = c,
             polled_heading = h\<rparr>)))))"

fun pick_all :: "json list \<Rightarrow> js_error + polled_agent list" where
  "pick_all [] = Inr []"
| "pick_all (a # as) =
     (case pick a of
        Inl e \<Rightarrow> Inl e
      | Inr r \<Rightarrow> (case pick_all as of Inl e \<Rightarrow> Inl e | Inr rs \<Rightarrow> Inr (r # rs)))"

text \<open>\<^verbatim>\<open>v.map(...)\<close>: only an array has the method; calling it on anything else raises.\<close>

definition array_map :: "json \<Rightarrow> js_error + polled_agent list" where
  "array_map v = (case v of JArr xs \<Rightarrow> pick_all xs | _ \<Rightarrow> Inl TypeError)"

text \<open>
  One run of the polling callback. Every exception is caught (and logged), leaving the
  state as it is; \<^verbatim>\<open>setAgents\<close> runs before \<^verbatim>\<open>data.event_log\<close> is read.
\<close>

definition poll :: "fetch_result \<Rightarrow> app \<Rightarrow> app" where
  "poll res st =
     (case res of
        Rejected \<Rightarrow> st
      | Resolved code None \<Rightarrow> st
      | Resolved code (Some data) \<Rightarrow>
          if \<not> truthy (Some data) then st
          else
            (case get_prop data ''agents'' of
               Inl e \<Rightarrow> st
             | Inr None \<Rightarrow> st
             | Inr (Some ags) \<Rightarrow>
                 if \<not> truthy (Some ags) then st
                 else
                   (case array_map ags of
                      Inl e \<Rightarrow> st
                    | Inr rows \<Rightarrow>
                        (case get_prop data ''event_log'' of
                           Inl e \<Rightarrow> st\<lparr>app_agents := rows\<rparr>
                         | Inr ev \<Rightarrow>
                             st\<lparr>app_agents := rows,
                                eventLog := (if truthy ev then the ev else JArr [])\<rparr>))))"

definition has_field :: "json \<Rightarrow> string \<Rightarrow> bool" where
  "has_field data p = (case get_prop data p of Inr (Some v) \<Rightarrow> True | _ \<Rightarrow> False)"

text \<open>A state of the client after a successful poll, and a response without agents.\<close>

definition polledApp :: app where
  "polledApp =
     \<lparr>app_agents =
        [\<lparr>polled_id = Some (JStr ''A1''), polled_x = Some (JNum 150), polled_y = Some (JNum 150),
          polled_color = Some (JStr ''#00FFD1''), polled_heading = Some (JNum 45)\<rparr>],
      eventLog = JArr [JStr ''Race started''],
      simStatus = ''running''\<rparr>"

definition bodyWithoutAgents :: json where
  "bodyWithoutAgents = JObj [(''tick'', JNum 3), (''event_log'', JArr [])]"

section \<open>Properties of the animation tick\<close>

lemma length_animate_agents: "length (animate_agents rnd k agents) = length agents"
  by (induction agents arbitrary: k) simp_all

lemma speed_in_range_animate_agent:
  "speed_in_range a \<Longrightarrow> speed_in_range (animate_agent r1 r2 r3 r4 a)"
  by (auto simp: speed_in_range_def animate_agent_def split: option.splits)

lemma speed_in_range_animate_agents:
  "list_all speed_in_range agents \<Longrightarrow> list_all speed_in_range (animate_agents rnd k agents)"
  by (induction agents arbitrary: k) (simp_all add: speed_in_range_animate_agent)

lemma lap_animate_agents:
  "i < length agents \<Longrightarrow> lap (animate_agents rnd k agents ! i) = lap (agents ! i)"
proof (induction agents arbitrary: k i)
  case Nil
  then show ?case by simp
next
  case (Cons a as)
  show ?case
  proof (cases i)
    case 0
    then show ?thesis by (simp add: animate_agent_def)
  next
    case (Suc j)
    with Cons show ?thesis by simp
  qed
qed

lemma animate_agents_cong:
  "\<forall>j < 4 * length agents. rnd1 (k + j) = rnd2 (k + j) \<Longrightarrow>
   animate_agents rnd1 k agents = animate_agents rnd2 k agents"
proof (induction agents arbitrary: k)
  case Nil
  then show ?case by simp
next
  case (Cons a as)
  have here: "rnd1 (k + j) = rnd2 (k + j)" if "j < 4" for j
    using Cons.prems that by simp
  have "rnd1 (k + 4 + j) = rnd2 (k + 4 + j)" if "j < 4 * length as" for j
    using Cons.prems [rule_format, of "4 + j"] that by (simp add: add.assoc)
  then have rest: "animate_agents rnd1 (k + 4) as = animate_agents rnd2 (k + 4) as"
    by (intro Cons.IH) simp
  from here [of 0] here [of 1] here [of 2] here [of 3] rest show ?case
    by simp
qed

text \<open>
  C3. For every agent and every number of ticks of the animation, the speed stays in the
  closed interval from 160 to 200, given that it starts there.
\<close>

theorem speed_stays_in_range:
  "list_all speed_in_range agents \<Longrightarrow>
   list_all speed_in_range (animate_ticks n rnd k agents)"
proof (induction n arbitrary: k agents)
  case 0
  then show ?case by simp
next
  case (Suc n)
  from Suc.prems have "list_all speed_in_range (animate_agents rnd k agents)"
    by (rule speed_in_range_animate_agents)
  then show ?case by (simp add: Suc.IH)
qed

theorem speed_stays_in_range_witness:
  "list_all speed_in_range initialAgents \<and>
   list_all speed_in_range (animate_ticks 3 draws_mid 0 initialAgents)"
proof -
  have start: "list_all speed_in_range initialAgents"
    by (simp add: initialAgents_def speed_in_range_def)
  from start speed_stays_in_range [OF start, of 3 draws_mid 0] show ?thesis
    by simp
qed

text \<open>
  C7. One tick of the animation never decreases an agent's lap: the tick copies the lap
  unchanged, so the lap afterwards is at least the lap before.
\<close>

theorem lap_never_decreases:
  "i < length agents \<Longrightarrow> lap (agents ! i) = Some l \<Longrightarrow>
   \<exists>l'. lap (animate_agents rnd k agents ! i) = Some l' \<and> l \<le> l'"
  by (simp add: lap_animate_agents)

theorem lap_never_decreases_witness:
  "0 < length initialAgents \<and> lap (initialAgents ! 0) = Some 2 \<and>
   (\<exists>l'. lap (animate_agents draws_mid 0 initialAgents ! 0) = Some l' \<and> 2 \<le> l')"
proof -
  have h1: "0 < length initialAgents" and h2: "lap (initialAgents ! 0) = Some 2"
    by (simp_all add: initialAgents_def)
  from h1 h2 lap_never_decreases [OF h1 h2, of draws_mid 0] show ?thesis
    by simp
qed

text \<open>
  C2, as stated: two runs of the animation from the same state give the same snapshots.
  The tick draws from \<^verbatim>\<open>Math.random()\<close>, the unseeded generator of the process, and
  \<^verbatim>\<open>AppLayout\<close> takes no seed, so two runs from the initial state differ as soon as
  their draws differ.
\<close>

theorem animation_runs_differ:
  "animate_ticks 1 draws_low 0 initialAgents \<noteq> animate_ticks 1 draws_mid 0 initialAgents"
  by (simp add: initialAgents_def animate_agent_def draws_low_def draws_mid_def
        js_rem_def js_trunc_def)

text \<open>
  C2, amended: the snapshot after \<open>n\<close> ticks is a function of the previous state and of
  the values that the \<open>4 * n * length agents\<close> calls of \<^verbatim>\<open>Math.random()\<close> return; two
  runs that receive the same values give the same snapshots.
\<close>

theorem animation_determined_by_draws:
  "\<forall>j < 4 * n * length agents. rnd1 (k + j) = rnd2 (k + j) \<Longrightarrow>
   animate_ticks n rnd1 k agents = animate_ticks n rnd2 k agents"
proof (induction n arbitrary: k agents)
  case 0
  show ?case by simp
next
  case (Suc n)
  let ?m = "4 * length agents"
  have total: "4 * Suc n * length agents = ?m + 4 * n * length agents"
    by (simp add: algebra_simps)
  have first: "animate_agents rnd1 k agents = animate_agents rnd2 k agents"
  proof (rule animate_agents_cong, intro allI impI)
    fix j
    assume "j < ?m"
    then have "j < 4 * Suc n * length agents" unfolding total by simp
    with Suc.prems show "rnd1 (k + j) = rnd2 (k + j)" by blast
  qed
  have later: "rnd1 (k + ?m + j) = rnd2 (k + ?m + j)"
    if "j < 4 * n * length (animate_agents rnd2 k agents)" for j
  proof -
    from that have "?m + j < 4 * Suc n * length agents"
      unfolding total length_animate_agents by simp
    with Suc.prems have "rnd1 (k + (?m + j)) = rnd2 (k + (?m + j))" by blast
    then show ?thesis by (simp add: add.assoc)
  qed
  have "animate_ticks n rnd1 (k + ?m) (animate_agents rnd2 k agents) =
        animate_ticks n rnd2 (k + ?m) (animate_agents rnd2 k agents)"
    by (rule Suc.IH) (simp add: later)
  with first show ?case by simp
qed

theorem animation_determined_by_draws_witness:
  "draws_low 11 = draws_low_then_mid 11 \<and> draws_low 12 \<noteq> draws_low_then_mid 12 \<and>
   animate_ticks 1 draws_low 0 initialAgents =
   animate_ticks 1 draws_low_then_mid 0 initialAgents"
proof -
  have agree:
    "\<forall>j < 4 * 1 * length initialAgents. draws_low (0 + j) = draws_low_then_mid (0 + j)"
    by (simp add: initialAgents_def draws_low_def draws_low_then_mid_def)
  have differ: "draws_low 11 = draws_low_then_mid 11 \<and> draws_low 12 \<noteq> draws_low_then_mid 12"
    by (simp add: draws_low_def draws_low_then_mid_def)
  from differ animation_determined_by_draws [OF agree] show ?thesis
    by blast
qed

lemma js_rem_nonneg:
  assumes "0 \<le> a" and "0 < b"
  shows "0 \<le> js_rem a b \<and> js_rem a b < b"
proof -
  let ?q = "real_of_int \<lfloor>a / b\<rfloor>"
  from assms have q: "0 \<le> a / b" by simp
  have "?q \<le> a / b" and "a / b < ?q + 1"
    by linarith+
  with assms(2) have "?q * b \<le> a / b * b" and "a / b * b < (?q + 1) * b"
    by (simp_all only: mult_le_cancel_right mult_less_cancel_right) simp_all
  with assms(2) have "?q * b \<le> a" and "a < (?q + 1) * b"
    by simp_all
  then show ?thesis
    using q by (simp add: js_rem_def js_trunc_def algebra_simps)
qed

lemma js_rem_neg:
  assumes "a < 0" and "0 < b"
  shows "- b < js_rem a b \<and> js_rem a b \<le> 0"
proof -
  let ?q = "real_of_int \<lfloor>- (a / b)\<rfloor>"
  from assms have q: "\<not> 0 \<le> a / b" by (simp add: divide_less_0_iff not_le)
  have "?q \<le> - (a / b)" and "- (a / b) < ?q + 1"
    by linarith+
  with assms(2) have "?q * b \<le> - (a / b) * b" and "- (a / b) * b < (?q + 1) * b"
    by (simp_all only: mult_le_cancel_right mult_less_cancel_right) simp_all
  with assms(2) have "?q * b \<le> - a" and "- a < (?q + 1) * b"
    by simp_all
  then show ?thesis
    using q by (simp add: js_rem_def js_trunc_def algebra_simps)
qed

text \<open>
  What the remainder does give: after a tick the heading is strictly between -360 and
  360, whatever it was before.
\<close>

lemma heading_after_tick:
  "- 360 < heading (animate_agent r1 r2 r3 r4 a) \<and> heading (animate_agent r1 r2 r3 r4 a) < 360"
proof (cases "0 \<le> heading a + r3 * 5 - 5 / 2")
  case True
  from js_rem_nonneg [OF True, of 360] show ?thesis
    by (simp add: animate_agent_def)
next
  case False
  then have "heading a + r3 * 5 - 5 / 2 < 0" by simp
  from js_rem_neg [OF this, of 360] show ?thesis
    by (simp add: animate_agent_def)
qed

text \<open>
  C4, at a failing input. Every heading of the initial state is in the range from 0
  (included) to 360 (excluded). When each call of \<^verbatim>\<open>Math.random()\<close> returns 0.1, a tick
  lowers each heading by 2; after 23 ticks the heading of the first agent is -1, because
  the remainder of a negative number is negative.
\<close>

theorem heading_leaves_range:
  "list_all heading_wrapped initialAgents \<and>
   map heading (animate_ticks 23 draws_low 0 initialAgents) = [- 1, 44, 179] \<and>
   \<not> list_all heading_wrapped (animate_ticks 23 draws_low 0 initialAgents)"
  by (simp add: initialAgents_def animate_agent_def draws_low_def heading_wrapped_def
        js_rem_def js_trunc_def eval_nat_numeral)

section \<open>Properties of the Leaderboard\<close>

lemma mset_js_insort: "mset (js_insort cmp a bs) = add_mset a (mset bs)"
  by (induction bs) simp_all

lemma mset_js_sort: "mset (js_sort cmp xs) = mset xs"
  by (induction xs) (simp_all add: js_sort_def mset_js_insort)

lemma set_sortedAgents: "set (sortedAgents ags) = set ags"
  using mset_js_sort [of compareFn ags] by (metis sortedAgents_def set_mset_mset)

lemma length_sortedAgents: "length (sortedAgents ags) = length ags"
  using mset_js_sort [of compareFn ags] by (metis sortedAgents_def size_mset)

lemma has_lap_and_lapTime_iff:
  "has_lap_and_lapTime a \<longleftrightarrow> (\<exists>l t. lap a = Some l \<and> lapTime a = VNum t)"
  by (cases "lapTime a") (auto simp: has_lap_and_lapTime_def is_num_def)

lemma sorts_after_rank_key:
  "has_lap_and_lapTime a \<Longrightarrow> has_lap_and_lapTime b \<Longrightarrow>
   sorts_after compareFn a b \<longleftrightarrow> \<not> rank_key a \<le> rank_key b"
  by (auto simp: has_lap_and_lapTime_iff sorts_after_def compareFn_def js_or_def
        js_sub_def rank_key_def less_eq_prod_def split: if_splits)

lemma ranks_before_rank_key:
  "has_lap_and_lapTime a \<Longrightarrow> has_lap_and_lapTime b \<Longrightarrow>
   ranks_before a b \<longleftrightarrow> rank_key a \<le> rank_key b"
  by (auto simp: has_lap_and_lapTime_iff ranks_before_def rank_key_def less_eq_prod_def)

lemma js_insort_insort_key:
  "has_lap_and_lapTime a \<Longrightarrow> list_all has_lap_and_lapTime bs \<Longrightarrow>
   js_insort compareFn a bs = insort_key rank_key a bs"
  by (induction bs) (simp_all add: sorts_after_rank_key)

lemma sortedAgents_sort_key:
  "list_all has_lap_and_lapTime ags \<Longrightarrow> sortedAgents ags = sort_key rank_key ags"
proof (induction ags)
  case Nil
  show ?case by (simp add: sortedAgents_def js_sort_def)
next
  case (Cons a ags)
  then have tail: "js_sort compareFn ags = sort_key rank_key ags"
    by (simp add: sortedAgents_def)
  from Cons.prems have "list_all has_lap_and_lapTime (sort_key rank_key ags)"
    by (simp add: list_all_iff)
  with Cons.prems tail show ?case
    by (simp add: sortedAgents_def js_sort_def sort_key_def js_insort_insort_key)
qed

lemma sorted_sortedAgents:
  assumes "list_all has_lap_and_lapTime ags"
  shows "sorted_wrt ranks_before (sortedAgents ags)"
proof -
  have "sorted_wrt (\<lambda>a b. rank_key a \<le> rank_key b) (sort_key rank_key ags)"
    using sorted_sort_key [of rank_key ags] by (simp add: sorted_map)
  moreover have "\<forall>a \<in> set (sort_key rank_key ags). has_lap_and_lapTime a"
    using assms by (simp add: list_all_iff)
  ultimately have "sorted_wrt ranks_before (sort_key rank_key ags)"
    by (auto intro: sorted_wrt_mono_rel [rotated] simp: ranks_before_rank_key)
  then show ?thesis
    by (simp add: sortedAgents_sort_key [OF assms])
qed

lemma ranks_before_lap:
  "ranks_before a b \<Longrightarrow> \<exists>la lb. lap a = Some la \<and> lap b = Some lb \<and> la \<le> lb"
  by (cases "lap a"; cases "lap b"; cases "lapTime a"; cases "lapTime b")
    (auto simp: ranks_before_def)

lemma ranks_before_same_lap:
  "ranks_before a b \<Longrightarrow> lap a = lap b \<Longrightarrow> not_slower a b"
  by (cases "lap a"; cases "lap b"; cases "lapTime a"; cases "lapTime b")
    (auto simp: ranks_before_def not_slower_def)

lemma laps_stand_together:
  assumes sorted: "sorted_wrt ranks_before s"
    and "i \<le> j" and "j \<le> k" and "k < length s" and same: "lap (s ! i) = lap (s ! k)"
  shows "lap (s ! j) = lap (s ! i)"
proof (cases "i = j \<or> j = k")
  case True
  with same show ?thesis by auto
next
  case False
  with assms have "i < j" and "j < k" by simp_all
  with sorted \<open>k < length s\<close>
  have "ranks_before (s ! i) (s ! j)" and "ranks_before (s ! j) (s ! k)"
    by (simp_all add: sorted_wrt_nth_less)
  then obtain li lj lj' lk where "lap (s ! i) = Some li" "lap (s ! j) = Some lj" "li \<le> lj"
    and "lap (s ! j) = Some lj'" "lap (s ! k) = Some lk" "lj' \<le> lk"
    by (meson ranks_before_lap)
  with same show ?thesis by simp
qed

text \<open>
  C1, amended. For every list of agents that have a lap and a numeric lap time, the
  standings of the leaderboard are a rearrangement of the list in which the agents on
  the same lap stand together, ordered among themselves by lap time ascending (not by
  progress); agents with the same lap and lap time keep the order they had in the list,
  so a tie is not broken by agent id. The order between agents on different laps is
  left open.
\<close>

theorem leaderboard_order:
  assumes "list_all has_lap_and_lapTime ags"
  shows "mset (sortedAgents ags) = mset ags \<and>
         (i \<le> j \<and> j \<le> k \<and> k < length ags \<and>
            lap (sortedAgents ags ! i) = lap (sortedAgents ags ! k) \<longrightarrow>
          lap (sortedAgents ags ! j) = lap (sortedAgents ags ! i)) \<and>
         sorted_wrt not_slower (filter (\<lambda>a. lap a = Some l) (sortedAgents ags)) \<and>
         filter (\<lambda>a. lap a = Some l \<and> lapTime a = VNum t) (sortedAgents ags) =
         filter (\<lambda>a. lap a = Some l \<and> lapTime a = VNum t) ags"
proof (intro conjI)
  show "mset (sortedAgents ags) = mset ags"
    by (simp add: sortedAgents_def mset_js_sort)
next
  show "i \<le> j \<and> j \<le> k \<and> k < length ags \<and>
          lap (sortedAgents ags ! i) = lap (sortedAgents ags ! k) \<longrightarrow>
        lap (sortedAgents ags ! j) = lap (sortedAgents ags ! i)"
    using laps_stand_together [OF sorted_sortedAgents [OF assms], of i j k]
    by (simp add: length_sortedAgents)
next
  have "sorted_wrt ranks_before (filter (\<lambda>a. lap a = Some l) (sortedAgents ags))"
    using sorted_sortedAgents [OF assms] by (rule sorted_wrt_filter)
  then show "sorted_wrt not_slower (filter (\<lambda>a. lap a = Some l) (sortedAgents ags))"
    by (rule sorted_wrt_mono_rel [rotated]) (simp add: ranks_before_same_lap)
next
  have same: "(lap a = Some l \<and> lapTime a = VNum t) \<longleftrightarrow> rank_key a = (l, t)"
    if "a \<in> set ags" for a
    using assms that
    by (auto simp: list_all_iff has_lap_and_lapTime_iff rank_key_def)
  have "filter (\<lambda>a. lap a = Some l \<and> lapTime a = VNum t) (sort_key rank_key ags) =
        filter (\<lambda>a. rank_key a = (l, t)) (sort_key rank_key ags)"
    by (rule filter_cong) (simp_all add: same)
  also have "\<dots> = filter (\<lambda>a. rank_key a = (l, t)) ags"
    by (rule sort_key_stable)
  also have "\<dots> = filter (\<lambda>a. lap a = Some l \<and> lapTime a = VNum t) ags"
    by (rule filter_cong) (simp_all add: same)
  finally show "filter (\<lambda>a. lap a = Some l \<and> lapTime a = VNum t) (sortedAgents ags) =
                filter (\<lambda>a. lap a = Some l \<and> lapTime a = VNum t) ags"
    by (simp add: sortedAgents_sort_key [OF assms])
qed

theorem leaderboard_order_witness:
  "list_all has_lap_and_lapTime initialAgents \<and>
   mset (sortedAgents initialAgents) = mset initialAgents \<and>
   lap (sortedAgents initialAgents ! 1) = lap (sortedAgents initialAgents ! 2) \<and>
   sorted_wrt not_slower (filter (\<lambda>a. lap a = Some 2) (sortedAgents initialAgents)) \<and>
   map agent_id (filter (\<lambda>a. lap a = Some 2) (sortedAgents initialAgents)) = [''A1'', ''A2''] \<and>
   filter (\<lambda>a. lap a = Some 2 \<and> lapTime a = VNum (6534 / 100)) (sortedAgents initialAgents) =
   filter (\<lambda>a. lap a = Some 2 \<and> lapTime a = VNum (6534 / 100)) initialAgents"
proof -
  have pre: "list_all has_lap_and_lapTime initialAgents"
    by (simp add: initialAgents_def has_lap_and_lapTime_def is_num_def)
  have ends: "(1::nat) \<le> 1 \<and> (1::nat) \<le> 2 \<and> 2 < length initialAgents \<and>
      lap (sortedAgents initialAgents ! 1) = lap (sortedAgents initialAgents ! 2)"
    by (simp add: sortedAgents_def js_sort_def initialAgents_def sorts_after_def compareFn_def
          js_or_def js_sub_def)
  have ids: "map agent_id (filter (\<lambda>a. lap a = Some 2) (sortedAgents initialAgents)) =
      [''A1'', ''A2'']"
    by (simp add: sortedAgents_def js_sort_def initialAgents_def sorts_after_def compareFn_def
          js_or_def js_sub_def)
  from pre ends ids leaderboard_order [OF pre, of 1 1 2 2 "6534 / 100"] show ?thesis
    by blast
qed

text \<open>
  C1, as stated: a tie in lap and progress is broken by agent id ascending. Two agents
  that differ in their id only stay in the order in which they were given, with the
  larger id first.
\<close>

theorem leaderboard_ignores_id:
  "sortedAgents [twinA2, twinA1] = [twinA2, twinA1] \<and>
   \<not> sorted_wrt spec_ranks_before (sortedAgents [twinA2, twinA1])"
  by (simp add: sortedAgents_def js_sort_def twinA1_def twinA2_def sorts_after_def compareFn_def
        js_or_def js_sub_def spec_ranks_before_def)

text \<open>
  Between laps the comparator puts the smaller lap first, so that the agent on lap 1
  stands at position 1, before the two agents on lap 2.
\<close>

lemma sortedAgents_initialAgents: "map agent_id (sortedAgents initialAgents) = [''A3'', ''A1'', ''A2'']"
  by (simp add: sortedAgents_def js_sort_def initialAgents_def sorts_after_def compareFn_def
        js_or_def js_sub_def)

lemma render_row_renders: "row_renders a \<Longrightarrow> \<exists>r. render_row a i = Inr r"
  by (auto simp: row_renders_def render_row_def render_delta_def toFixed2_def is_num_def
        is_str_def split: jsval.splits)

lemma render_row_raises: "\<not> row_renders a \<Longrightarrow> render_row a i = Inl TypeError"
  by (cases "lapTime a"; cases "delta a"; cases "status a")
    (simp_all add: row_renders_def render_row_def render_delta_def toFixed2_def is_num_def
      is_str_def)

lemma render_rows_renders:
  "list_all row_renders as \<Longrightarrow> \<exists>rows. render_rows i as = Inr rows \<and> length rows = length as"
proof (induction as arbitrary: i)
  case Nil
  show ?case by simp
next
  case (Cons a as)
  from Cons.prems obtain r where row: "render_row a i = Inr r"
    using render_row_renders [of a i] by auto
  from Cons.prems obtain rows where "render_rows (i + 1) as = Inr rows" and "length rows = length as"
    using Cons.IH [of "i + 1"] by auto
  with row show ?case by simp
qed

lemma render_rows_raises:
  "\<not> list_all row_renders as \<Longrightarrow> render_rows i as = Inl TypeError"
proof (induction as arbitrary: i)
  case Nil
  then show ?case by simp
next
  case (Cons a as)
  show ?case
  proof (cases "row_renders a")
    case False
    then show ?thesis by (simp add: render_row_raises)
  next
    case True
    then obtain r where "render_row a i = Inr r"
      using render_row_renders [of a i] by auto
    moreover from True Cons.prems have "render_rows (i + 1) as = Inl TypeError"
      by (intro Cons.IH) simp
    ultimately show ?thesis by simp
  qed
qed

text \<open>Whether the rows render depends on the agents only, not on their order.\<close>

lemma render_rows_raises_iff:
  "render_rows i as = Inl TypeError \<longleftrightarrow> \<not> list_all row_renders as"
  using render_rows_renders [of as i] render_rows_raises [of as i] by auto

lemma Leaderboard_raises_iff:
  "Leaderboard ags = Inl TypeError \<longleftrightarrow> \<not> list_all row_renders ags"
  by (simp add: Leaderboard_def render_rows_raises_iff list_all_iff set_sortedAgents)

text \<open>
  C9, as stated: rendering is total only under the precondition that every agent has a
  numeric lap and lap time and a string status. An agent that meets the precondition and
  has the delta \<^verbatim>\<open>null\<close> makes rendering raise, and an agent without a lap, which does
  not meet it, renders.
\<close>

theorem leaderboard_precondition_fails:
  "has_lap_lapTime_status nullDeltaAgent \<and>
   Leaderboard [nullDeltaAgent] = Inl TypeError \<and>
   \<not> has_lap_lapTime_status noLapAgent \<and>
   \<not> isl (Leaderboard [noLapAgent])"
  by (simp add: has_lap_lapTime_status_def is_num_def is_str_def nullDeltaAgent_def
        noLapAgent_def Leaderboard_def sortedAgents_def js_sort_def render_row_def
        render_delta_def toFixed2_def)

text \<open>
  C9, amended. Rendering the leaderboard returns a row for each agent exactly when every
  agent of the list has a lap time that is a number, a delta that is \<^verbatim>\<open>undefined\<close> or
  a number, and a status that is a string; otherwise it raises a \<^verbatim>\<open>TypeError\<close>. \<^verbatim>\<open>NaN\<close>
  counts as a number, and a missing lap does not raise. On a list that holds an agent as
  the polling client builds it, without a lap time, rendering raises.
\<close>

theorem leaderboard_renders_iff:
  "(\<exists>rows. Leaderboard ags = Inr rows \<and> length rows = length ags) = list_all row_renders ags \<and>
   (Leaderboard ags = Inl TypeError) = (\<not> list_all row_renders ags) \<and>
   Leaderboard [polledShape] = Inl TypeError"
proof (intro conjI)
  show "(\<exists>rows. Leaderboard ags = Inr rows \<and> length rows = length ags) = list_all row_renders ags"
  proof
    assume "\<exists>rows. Leaderboard ags = Inr rows \<and> length rows = length ags"
    then have "Leaderboard ags \<noteq> Inl TypeError" by auto
    then show "list_all row_renders ags" by (simp add: Leaderboard_raises_iff)
  next
    assume "list_all row_renders ags"
    then have "list_all row_renders (sortedAgents ags)"
      by (simp add: list_all_iff set_sortedAgents)
    from render_rows_renders [OF this, of 0] show
      "\<exists>rows. Leaderboard ags = Inr rows \<and> length rows = length ags"
      by (simp add: Leaderboard_def length_sortedAgents)
  qed
next
  show "(Leaderboard ags = Inl TypeError) = (\<not> list_all row_renders ags)"
    by (rule Leaderboard_raises_iff)
next
  show "Leaderboard [polledShape] = Inl TypeError"
    by (simp add: Leaderboard_raises_iff row_renders_def polledShape_def is_num_def)
qed

theorem leaderboard_renders_iff_witness:
  "list_all row_renders initialAgents \<and>
   (\<exists>rows. Leaderboard initialAgents = Inr rows \<and> length rows = length initialAgents) \<and>
   Leaderboard initialAgents \<noteq> Inl TypeError"
proof -
  have pre: "list_all row_renders initialAgents"
    by (simp add: initialAgents_def row_renders_def is_num_def is_str_def)
  from pre leaderboard_renders_iff [of initialAgents] show ?thesis
    by blast
qed

section \<open>Properties of the zoom control\<close>

lemma binade_eqI:
  assumes "2 powi e \<le> \<bar>x\<bar>" and "\<bar>x\<bar> < 2 powi (e + 1)"
  shows "binade x = e"
proof -
  have pos: "0 < \<bar>x\<bar>"
    using assms(1) by (smt (verit) zero_less_power_int)
  have "(2::real) powr real_of_int e = 2 powi e"
    by (rule powr_real_of_int') simp_all
  moreover have "(2::real) powr real_of_int (e + 1) = 2 powi (e + 1)"
    by (rule powr_real_of_int') simp_all
  ultimately have "2 powr real_of_int e \<le> \<bar>x\<bar> \<and> \<bar>x\<bar> < 2 powr (real_of_int e + 1)"
    using assms by simp
  with pos show ?thesis
    unfolding binade_def by (simp add: floor_log_eq_powr_iff)
qed

lemma round_half_even_error: "\<bar>of_int (round_half_even r) - r\<bar> \<le> 1 / 2"
  unfolding round_half_even_def Let_def by (auto simp: abs_if) linarith+

lemma binade_le:
  assumes "x \<noteq> 0" and "\<bar>x\<bar> < 2 powi (e + 1)"
  shows "binade x \<le> e"
proof -
  have "(2::real) powr real_of_int (e + 1) = 2 powi (e + 1)"
    by (rule powr_real_of_int') simp_all
  with assms have "log 2 \<bar>x\<bar> < real_of_int (e + 1)"
    by (simp add: log_less_iff)
  then show ?thesis
    unfolding binade_def by linarith
qed

lemma round_double_error:
  "\<bar>round_double x - x\<bar> \<le> 2 powi (binade x - 52) / 2"
proof (cases "x = 0")
  case True
  then show ?thesis by (simp add: round_double_def)
next
  case False
  let ?u = "(2::real) powi (binade x - 52)"
  have u: "0 < ?u" by simp
  have "\<bar>of_int (round_half_even (x / ?u)) - x / ?u\<bar> \<le> 1 / 2"
    by (rule round_half_even_error)
  then have "?u * \<bar>of_int (round_half_even (x / ?u)) - x / ?u\<bar> \<le> ?u * (1 / 2)"
    using u by (simp only: mult_le_cancel_left_pos)
  moreover have "?u * of_int (round_half_even (x / ?u)) - x =
        ?u * (of_int (round_half_even (x / ?u)) - x / ?u)"
    using u by (simp add: algebra_simps)
  then have "\<bar>?u * of_int (round_half_even (x / ?u)) - x\<bar> =
        ?u * \<bar>of_int (round_half_even (x / ?u)) - x / ?u\<bar>"
    using u by (simp only: abs_mult abs_of_pos)
  ultimately show ?thesis
    using False by (simp add: round_double_def)
qed

lemma round_double_error_small:
  assumes "\<bar>x\<bar> < 4"
  shows "\<bar>round_double x - x\<bar> \<le> 1 / 2 ^ 52"
proof (cases "x = 0")
  case True
  then show ?thesis by (simp add: round_double_def)
next
  case False
  from assms have "\<bar>x\<bar> < 2 powi (1 + 1)" by simp
  with False have "binade x \<le> 1" by (rule binade_le)
  then have "(2::real) powi (binade x - 52) \<le> 2 powi (- 51)"
    by (intro power_int_increasing) simp_all
  moreover have "(2::real) powi (- 51) = 1 / 2 ^ 51"
    by (simp add: power_int_minus divide_simps)
  ultimately have "(2::real) powi (binade x - 52) / 2 \<le> 1 / 2 ^ 52"
    by simp
  with round_double_error [of x] show ?thesis by linarith
qed

lemma round_double_eval:
  assumes "2 powi e \<le> \<bar>x\<bar>" and "\<bar>x\<bar> < 2 powi (e + 1)"
  shows "round_double x = 2 powi (e - 52) * of_int (round_half_even (x / 2 powi (e - 52)))"
proof -
  from assms have "binade x = e" by (rule binade_eqI)
  moreover from assms(1) have "x \<noteq> 0"
    by (smt (verit) zero_less_power_int)
  ultimately show ?thesis by (simp add: round_double_def)
qed

lemma double_two_tenths: "two_tenths = 3602879701896397 / 2 ^ 54"
  unfolding two_tenths_def using round_double_eval [of "- 3" "2 / 10"]
  by (simp add: round_half_even_def power_int_minus)

lemma handleZoom_bounds: "1 / 2 \<le> handleZoom direction prev \<and> handleZoom direction prev \<le> 3"
  by (simp add: handleZoom_def)

lemma zoom_after_snoc: "zoom_after (clicks @ [d]) = handleZoom d (zoom_after clicks)"
  by (simp add: zoom_after_def)

lemma zoom_after_bounds: "1 / 2 \<le> zoom_after clicks \<and> zoom_after clicks \<le> 3"
proof (induction clicks rule: rev_induct)
  case Nil
  show ?case by (simp add: zoom_after_def)
next
  case (snoc d clicks)
  show ?case unfolding zoom_after_snoc by (rule handleZoom_bounds)
qed

lemma clamp_close:
  fixes x y :: real
  shows "\<bar>max (1 / 2) (min 3 x) - max (1 / 2) (min 3 y)\<bar> \<le> \<bar>x - y\<bar>"
  by (simp add: max_def min_def abs_if)

lemma handleZoom_close:
  assumes "1 / 2 \<le> prev" and "prev \<le> 3"
  shows "\<bar>handleZoom d prev -
           max (1 / 2) (min 3 (prev + (if d = ''in'' then 2 / 10 else - (2 / 10))))\<bar>
         \<le> 1 / 2 ^ 51"
proof -
  let ?s = "if d = ''in'' then two_tenths else - two_tenths"
  let ?t = "if d = ''in'' then 2 / 10 else - (2 / 10) :: real"
  have near: "\<bar>?s - ?t\<bar> \<le> 1 / 2 ^ 56"
    by (simp add: double_two_tenths)
  have "\<bar>?s\<bar> < 1 / 4"
    by (simp add: double_two_tenths)
  with assms have "\<bar>prev + ?s\<bar> < 4"
    by (simp add: abs_if split: if_splits)
  then have "\<bar>round_double (prev + ?s) - (prev + ?s)\<bar> \<le> 1 / 2 ^ 52"
    by (rule round_double_error_small)
  with near have "\<bar>round_double (prev + ?s) - (prev + ?t)\<bar> \<le> 1 / 2 ^ 52 + 1 / 2 ^ 56"
    by linarith
  also have "\<dots> \<le> 1 / 2 ^ 51"
    by simp
  finally have "\<bar>double_add prev ?s - (prev + ?t)\<bar> \<le> 1 / 2 ^ 51"
    by (simp add: double_add_def)
  with clamp_close [of "double_add prev ?s" "prev + ?t"] show ?thesis
    unfolding handleZoom_def by linarith
qed

text \<open>
  C8, amended. Starting from the zoom factor 1, after every sequence of clicks the zoom
  factor is in the closed interval from 0.5 to 3. A further click sets it to the sum of
  doubles of the factor and 0.2 (for \<^verbatim>\<open>'in'\<close>) or -0.2 (otherwise), kept within the
  interval; that is the exact sum with two tenths, kept within the interval, up to a
  rounding error of at most \<open>1 / 2 ^ 51\<close>: the step is 0.2 up to rounding, not exactly.
\<close>

theorem zoom_stays_in_range:
  "1 / 2 \<le> zoom_after clicks \<and> zoom_after clicks \<le> 3 \<and>
   \<bar>zoom_after (clicks @ [d]) -
      max (1 / 2) (min 3 (zoom_after clicks + (if d = ''in'' then 2 / 10 else - (2 / 10))))\<bar>
     \<le> 1 / 2 ^ 51"
proof -
  from zoom_after_bounds [of clicks]
  have lo: "1 / 2 \<le> zoom_after clicks" and hi: "zoom_after clicks \<le> 3"
    by simp_all
  from lo hi handleZoom_close [OF lo hi, of d] show ?thesis
    unfolding zoom_after_snoc by simp
qed

lemma zoom_out_once: "zoom_after [''out''] = 7205759403792794 / 2 ^ 53"
proof -
  have "round_double (1 + - (3602879701896397 / 2 ^ 54)) = 7205759403792794 / 2 ^ 53"
    using round_double_eval [of "- 1" "1 + - (3602879701896397 / 2 ^ 54)"]
    by (simp add: round_half_even_def power_int_minus)
  then show ?thesis
    by (simp add: zoom_after_def handleZoom_def double_add_def double_two_tenths)
qed

lemma zoom_out_twice: "zoom_after [''out'', ''out''] = 5404319552844596 / 2 ^ 53"
proof -
  have "round_double (7205759403792794 / 2 ^ 53 + - (3602879701896397 / 2 ^ 54)) =
        5404319552844596 / 2 ^ 53"
    using round_double_eval [of "- 1" "7205759403792794 / 2 ^ 53 + - (3602879701896397 / 2 ^ 54)"]
    by (simp add: round_half_even_def power_int_minus)
  moreover have "zoom_after [''out'', ''out''] = handleZoom ''out'' (zoom_after [''out''])"
    by (simp add: zoom_after_def)
  ultimately show ?thesis
    by (simp add: zoom_out_once handleZoom_def double_add_def double_two_tenths)
qed

text \<open>
  C8, as stated: away from the bounds each click changes the zoom factor by exactly 0.2.
  Two clicks on zoom-out give 0.8 and then 0.6000000000000001, both inside the interval;
  the step between them is 0.19999999999999996, which is neither two tenths nor the
  double 0.2.
\<close>

theorem zoom_step_not_exact:
  "zoom_after [''out''] = 7205759403792794 / 2 ^ 53 \<and>
   zoom_after [''out'', ''out''] = 5404319552844596 / 2 ^ 53 \<and>
   zoom_after [''out''] - zoom_after [''out'', ''out''] \<noteq> 2 / 10 \<and>
   zoom_after [''out''] - zoom_after [''out'', ''out''] \<noteq> two_tenths"
  by (simp add: zoom_out_once zoom_out_twice double_two_tenths)

section \<open>Properties of the configuration modal\<close>

lemma remove_all_ids:
  "cfg_id ` set (modal_agents m) \<subseteq> set ids \<Longrightarrow>
   modal_agents (foldl (\<lambda>m' i. handleRemoveAgent i m') m ids) = []"
proof (induction ids arbitrary: m)
  case Nil
  then show ?case by simp
next
  case (Cons i ids)
  have "cfg_id ` set (modal_agents (handleRemoveAgent i m)) \<subseteq> set ids"
    using Cons.prems by (auto simp: handleRemoveAgent_def)
  then show ?case by (simp add: Cons.IH)
qed

lemma handleAddAgent_initialModal:
  "modal_agents (handleAddAgent ''k3j9x2q1z'' initialModal) =
     modal_agents initialModal @
       [\<lparr>cfg_id = ''ak3j9x2q1z'', cfg_name = ''Agent-4'', param = ''balanced''\<rparr>]"
  by (simp add: handleAddAgent_def initialModal_def digit_def)

text \<open>
  C5, as stated: the configuration that the modal submits on Start never has an empty
  agent list. After the remove button of each of the three default agents is pressed,
  Start submits the track with an empty agent list, and the layout takes it and hides
  the modal.
\<close>

theorem modal_submits_empty_agents:
  "handleStart (remove_every_agent initialModal) initialLayout =
     \<lparr>showModal = False, console = [\<lparr>track = ''monaco'', config_agents = []\<rparr>]\<rparr>"
  by (simp add: handleStart_def onClose_def handleStartSimulation_def remove_every_agent_def
        handleRemoveAgent_def initialModal_def initialLayout_def)

text \<open>
  C5, amended. Start submits the selected track and the agent list of the modal as they
  are, without validation, and the layout accepts every configuration: it logs it and
  hides the modal. The agent list is empty once every agent has been removed, which the
  modal allows from any state.
\<close>

theorem modal_submits_unvalidated:
  "handleStart m st =
     \<lparr>showModal = False,
      console = console st @ [\<lparr>track = selectedTrack m, config_agents = modal_agents m\<rparr>]\<rparr> \<and>
   modal_agents (remove_every_agent m) = []"
proof
  show "handleStart m st =
     \<lparr>showModal = False,
      console = console st @ [\<lparr>track = selectedTrack m, config_agents = modal_agents m\<rparr>]\<rparr>"
    by (simp add: handleStart_def onClose_def handleStartSimulation_def)
next
  show "modal_agents (remove_every_agent m) = []"
    unfolding remove_every_agent_def by (rule remove_all_ids) simp
qed

section \<open>Properties of the polling client\<close>

text \<open>The status becomes running exactly when the promise of \<^verbatim>\<open>fetch\<close> resolves.\<close>

lemma start_running_iff: "simStatus (start res st) = ''running'' \<longleftrightarrow> res \<noteq> Rejected"
  by (cases res) (simp_all add: start_def)

text \<open>
  C6, at a failing input. The service answers the start request with status 409; the
  promise of \<^verbatim>\<open>fetch\<close> resolves, and the client sets its status to running. Only a
  rejected promise sets it to error.
\<close>

theorem start_running_on_409:
  "simStatus (start (Resolved 409 (Some (JObj [(''detail'', JStr ''already running'')]))) initialApp)
     = ''running'' \<and>
   simStatus (start Rejected initialApp) = ''error''"
  by (simp add: start_def)

lemma poll_without_agents:
  "\<not> has_field data ''agents'' \<Longrightarrow> poll (Resolved code (Some data)) st = st"
  by (auto simp: poll_def has_field_def split: sum.splits option.splits)

lemma poll_map_raises:
  "get_prop data ''agents'' = Inr (Some ags) \<Longrightarrow> array_map ags = Inl e \<Longrightarrow>
   poll (Resolved code (Some data)) st = st"
  by (simp add: poll_def)

text \<open>
  C10. A poll that fails leaves the agents and the event log of the client as they were:
  when the request is rejected, when the body is not JSON, when the body has no agents
  field, and when mapping the agents raises.
\<close>

theorem failed_poll_keeps_state:
  "poll Rejected st = st \<and>
   poll (Resolved code None) st = st \<and>
   (\<not> has_field data ''agents'' \<longrightarrow> poll (Resolved code (Some data)) st = st) \<and>
   (get_prop data ''agents'' = Inr (Some ags) \<and> array_map ags = Inl e \<longrightarrow>
      poll (Resolved code (Some data)) st = st)"
  by (simp add: poll_without_agents poll_map_raises) (simp add: poll_def)

theorem failed_poll_keeps_state_witness:
  "\<not> has_field bodyWithoutAgents ''agents'' \<and>
   poll (Resolved 200 (Some bodyWithoutAgents)) polledApp = polledApp \<and>
   get_prop (JObj [(''agents'', JArr [JNull])]) ''agents'' = Inr (Some (JArr [JNull])) \<and>
   array_map (JArr [JNull]) = Inl TypeError \<and>
   poll (Resolved 200 (Some (JObj [(''agents'', JArr [JNull])]))) polledApp = polledApp"
proof -
  have h1: "\<not> has_field bodyWithoutAgents ''agents''"
    by (simp add: has_field_def bodyWithoutAgents_def)
  have h2: "get_prop (JObj [(''agents'', JArr [JNull])]) ''agents'' = Inr (Some (JArr [JNull]))"
    by simp
  have h3: "array_map (JArr [JNull]) = Inl TypeError"
    by (simp add: array_map_def pick_def)
  from h1 failed_poll_keeps_state [of polledApp 200 bodyWithoutAgents]
  have "poll (Resolved 200 (Some bodyWithoutAgents)) polledApp = polledApp"
    by blast
  moreover from h2 h3
    failed_poll_keeps_state [of polledApp 200 "JObj [(''agents'', JArr [JNull])]" "JArr [JNull]" TypeError]
  have "poll (Resolved 200 (Some (JObj [(''agents'', JArr [JNull])]))) polledApp = polledApp"
    by blast
  ultimately show ?thesis using h1 h2 h3 by simp
qed

end
